theory Spec2Isabelle
  imports Complex_Main "HOL-Library.Sublist"
begin

section \<open>JavaScript values used by the scraper\<close>

text \<open>
  Strings are lists of code units; the model covers the code units below 256, so that
  \<open>length\<close> is JavaScript's \<open>.length\<close>. Every \<open>throw\<close> of the source is a value
  \<open>Inl e\<close> of a sum type.
\<close>

datatype exn = TypeError | SyntaxError

text \<open>The code units below 256 that \<open>String.prototype.trim\<close> and the regular
  expression class \<open>\s\<close> treat as white space: TAB, LF, VT, FF, CR, SP and NBSP.\<close>

definition isWhiteSpace :: "char \<Rightarrow> bool" where
  "isWhiteSpace c \<longleftrightarrow> of_char c \<in> {9, 10, 11, 12, 13, 32, 160 :: nat}"

definition trim :: "string \<Rightarrow> string" where
  "trim s = rev (dropWhile isWhiteSpace (rev (dropWhile isWhiteSpace s)))"

definition endsWith :: "string \<Rightarrow> string \<Rightarrow> bool" where
  "endsWith s t \<longleftrightarrow> length t \<le> length s \<and> drop (length s - length t) s = t"

section \<open>The URL constructor\<close>

text \<open>
  \<open>new URL(input, base)\<close> is Node's WHATWG URL parser, which is not code of this
  repository: the functions below take it as a parameter. It either throws a
  \<open>TypeError\<close> or returns an object, of which the scraper reads the fields below.
\<close>

record URL =
  href :: string
  origin :: string
  protocol :: string
  host :: string
  pathname :: string
  search :: string
  hash :: string

type_synonym URL_ctor = "string \<Rightarrow> string option \<Rightarrow> exn + URL"

text \<open>\<open>makeAbsoluteUrl(url, baseUrl)\<close>: the \<open>catch\<close> returns the input.\<close>

definition makeAbsoluteUrl :: "URL_ctor \<Rightarrow> string \<Rightarrow> string \<Rightarrow> exn + string" where
  "makeAbsoluteUrl newURL url baseUrl =
     (case newURL url (Some baseUrl) of
        Inr urlObj \<Rightarrow> Inr (href urlObj)
      | Inl e \<Rightarrow> Inr url)"

text \<open>\<open>ensureTrailingSlash(u)\<close>, the helper inside \<open>extractBreadcrumbs\<close>; \<open>url\<close> is
  the page URL of the enclosing call. The constructor's exception is not caught.\<close>

definition ensureTrailingSlash :: "URL_ctor \<Rightarrow> string \<Rightarrow> string \<Rightarrow> exn + string" where
  "ensureTrailingSlash newURL url u =
     (if \<not> endsWith u ''/'' then
        (case newURL u (Some url) of
           Inl e \<Rightarrow> Inl e
         | Inr urlObj \<Rightarrow>
             let base = origin urlObj @ pathname urlObj;
                 base = (if \<not> endsWith base ''/'' then base @ ''/'' else base)
             in Inr (base @ (if search urlObj \<noteq> [] then search urlObj else [])
                          @ (if hash urlObj \<noteq> [] then hash urlObj else [])))
      else Inr u)"

text \<open>The values of \<open>new URL(input, base)\<close> at the inputs of the examples of this
  theory. No example reads the constructor at another input; the last line is never
  reached by them.\<close>

definition mkURL :: "string \<Rightarrow> string \<Rightarrow> string \<Rightarrow> string \<Rightarrow> string \<Rightarrow> URL" where
  "mkURL p h path q f =
     \<lparr>href = p @ ''//'' @ h @ path @ q @ f, origin = p @ ''//'' @ h, protocol = p,
      host = h, pathname = path, search = q, hash = f\<rparr>"

definition URL_examples :: URL_ctor where
  "URL_examples input base =
     (if input = ''https://ex.com/a/b-c'' \<and> base = None
        then Inr (mkURL ''https:'' ''ex.com'' ''/a/b-c'' [] [])
      else if input = ''https://ex.com'' \<and> base = Some ''https://ex.com/a/b-c''
        then Inr (mkURL ''https:'' ''ex.com'' ''/'' [] [])
      else if input = ''https://ex.com/a'' \<and> base = Some ''https://ex.com/a/b-c''
        then Inr (mkURL ''https:'' ''ex.com'' ''/a'' [] [])
      else if input = ''https://ex.com/a/b-c'' \<and> base = Some ''https://ex.com/a/b-c''
        then Inr (mkURL ''https:'' ''ex.com'' ''/a/b-c'' [] [])
      else if input = ''/x/'' \<and> base = Some ''https://ex.com/a/b-c''
        then Inr (mkURL ''https:'' ''ex.com'' ''/x/'' [] [])
      else if input = ''mailto:a@b.c?subject=Hi'' \<and> base = Some ''https://ex.com/a/b-c''
        then Inr \<lparr>href = ''mailto:a@b.c?subject=Hi'', origin = ''null'',
                  protocol = ''mailto:'', host = [], pathname = ''a@b.c'',
                  search = ''?subject=Hi'', hash = []\<rparr>
      else if input = ''nulla@b.c/?subject=Hi'' \<and> base = Some ''https://ex.com/a/b-c''
        then Inr (mkURL ''https:'' ''ex.com'' ''/a/nulla@b.c/'' ''?subject=Hi'' [])
      else if input = ''http://[x'' \<and> base = Some ''https://ex.com/a/b-c''
        then Inl TypeError
      else Inl TypeError)"

section \<open>The parsed document\<close>

text \<open>
  The document tree and its selector engine are cheerio's, not code of this repository.
  An element is modelled by what the scraper can observe of it: its node type, its text
  content, its attributes, its inner HTML, the descendants that a selector finds, whether
  it matches a selector, its next sibling element, and the text that is left once the
  descendants matching a selector are removed from a clone of it. The loaded document
  \<open>$\<close> maps a selector to the elements it matches, in document order.
\<close>

datatype element = Element
  (el_type: string)
  (el_text: string)
  (el_attribs: "(string \<times> string) list")
  (el_html: "string option")
  (el_find: "string \<Rightarrow> element list")
  (el_is: "string \<Rightarrow> bool")
  (el_next: "element option")
  (el_textAfterRemove: "string \<Rightarrow> string")

type_synonym cheerio = "string \<Rightarrow> element list"

text \<open>The methods of a selection: \<open>.text()\<close> joins the texts of all its elements,
  \<open>.attr(name)\<close> reads the first element and is \<open>undefined\<close> (\<open>None\<close>) without one.\<close>

definition text_sel :: "element list \<Rightarrow> string" where
  "text_sel sel = concat (map el_text sel)"

definition attr_sel :: "element list \<Rightarrow> string \<Rightarrow> string option" where
  "attr_sel sel attrName = (case sel of [] \<Rightarrow> None | e # _ \<Rightarrow> map_of (el_attribs e) attrName)"

definition first_sel :: "element list \<Rightarrow> element list" where
  "first_sel sel = take 1 sel"

definition find_sel :: "element list \<Rightarrow> string \<Rightarrow> element list" where
  "find_sel sel selector = concat (map (\<lambda>e. el_find e selector) sel)"

definition not_sel :: "element list \<Rightarrow> string \<Rightarrow> element list" where
  "not_sel sel selector = filter (\<lambda>e. \<not> el_is e selector) sel"

text \<open>A string or \<open>undefined\<close> in a condition, and the operator \<open>||\<close> on such values.\<close>

definition truthy :: "string option \<Rightarrow> bool" where
  "truthy v \<longleftrightarrow> (case v of None \<Rightarrow> False | Some s \<Rightarrow> s \<noteq> [])"

definition or_js :: "string option \<Rightarrow> string option \<Rightarrow> string option" where
  "or_js a b = (if truthy a then a else b)"

text \<open>\<open>.each\<close> and \<open>.forEach\<close> with a callback that reads the index, updates the
  variables it captures (the state \<open>s\<close>) and may throw.\<close>

fun each :: "(nat \<Rightarrow> 'a \<Rightarrow> 's \<Rightarrow> exn + 's) \<Rightarrow> 'a list \<Rightarrow> nat \<Rightarrow> 's \<Rightarrow> exn + 's" where
  "each f [] i s = Inr s"
| "each f (x # xs) i s = (case f i x s of Inl e \<Rightarrow> Inl e | Inr s' \<Rightarrow> each f xs (Suc i) s')"

section \<open>Title\<close>

definition sel_ogTitle :: string where
  \<open>sel_ogTitle = ''meta[property="og:title"]''\<close>

definition extractTitle :: "cheerio \<Rightarrow> string option" where
  "extractTitle doc =
     or_js (or_js (or_js (Some (trim (text_sel (doc ''title''))))
                         (attr_sel (doc sel_ogTitle) ''content''))
                  (Some (trim (text_sel (first_sel (doc ''h1''))))))
           None"

section \<open>Breadcrumbs\<close>

record breadcrumb =
  name :: string
  url :: string
  position :: nat

definition breadcrumbSelectors :: "string list" where
  \<open>breadcrumbSelectors =
     [''.breadcrumb a'', ''.breadcrumbs a'', ''[typeof="BreadcrumbList"] a'',
      ''nav[aria-label*="bread" i] a'']\<close>

text \<open>The callback of \<open>elements.each\<close> in the selector branch.\<close>

definition eachLink ::
  "URL_ctor \<Rightarrow> string \<Rightarrow> nat \<Rightarrow> element \<Rightarrow> breadcrumb list \<Rightarrow> exn + breadcrumb list" where
  "eachLink newURL pageUrl index element breadcrumbs =
     (let text = trim (el_text element);
          href = map_of (el_attribs element) ''href''
      in if text \<noteq> [] \<and> truthy href then
           (case href of
              None \<Rightarrow> Inr breadcrumbs
            | Some h \<Rightarrow>
                (case makeAbsoluteUrl newURL h pageUrl of
                   Inl e \<Rightarrow> Inl e
                 | Inr absoluteUrl \<Rightarrow>
                     (case ensureTrailingSlash newURL pageUrl absoluteUrl of
                        Inl e \<Rightarrow> Inl e
                      | Inr absoluteUrl \<Rightarrow>
                          Inr (breadcrumbs @
                               [\<lparr>name = text, url = absoluteUrl, position = index + 1\<rparr>]))))
         else Inr breadcrumbs)"

text \<open>The loop over the selectors; it returns \<open>found\<close> and the breadcrumbs, and
  stops (\<open>break\<close>) at the first selector that matches an element.\<close>

fun trySelectors ::
  "URL_ctor \<Rightarrow> cheerio \<Rightarrow> string \<Rightarrow> string list \<Rightarrow> exn + (bool \<times> breadcrumb list)" where
  "trySelectors newURL doc pageUrl [] = Inr (False, [])"
| "trySelectors newURL doc pageUrl (selector # rest) =
     (let elements = doc selector
      in if length elements > 0 then
           (case each (eachLink newURL pageUrl) elements 0 [] of
              Inl e \<Rightarrow> Inl e
            | Inr breadcrumbs \<Rightarrow> Inr (True, breadcrumbs))
         else trySelectors newURL doc pageUrl rest)"

text \<open>\<open>s.split(sep)\<close> for a separator of one character.\<close>

fun split_acc :: "char \<Rightarrow> string \<Rightarrow> string \<Rightarrow> string list" where
  "split_acc sep acc [] = [rev acc]"
| "split_acc sep acc (c # cs) =
     (if c = sep then rev acc # split_acc sep [] cs else split_acc sep (c # acc) cs)"

definition split :: "string \<Rightarrow> char \<Rightarrow> string list" where
  "split s sep = split_acc sep [] s"

text \<open>\<open>segment.replace(/-/g, ' ').replace(/\b\w/g, l => l.toUpperCase())\<close>: a word
  character (\<open>[A-Za-z0-9_]\<close>) matches when no word character precedes it.\<close>

definition isWordChar :: "char \<Rightarrow> bool" where
  "isWordChar c \<longleftrightarrow>
     (let n = (of_char c :: nat)
      in (48 \<le> n \<and> n \<le> 57) \<or> (65 \<le> n \<and> n \<le> 90) \<or> n = 95 \<or> (97 \<le> n \<and> n \<le> 122))"

definition toUpperCase_word :: "char \<Rightarrow> char" where
  "toUpperCase_word c =
     (let n = (of_char c :: nat) in if 97 \<le> n \<and> n \<le> 122 then char_of (n - 32) else c)"

fun upcaseWordStarts :: "bool \<Rightarrow> string \<Rightarrow> string" where
  "upcaseWordStarts prevWord [] = []"
| "upcaseWordStarts prevWord (c # cs) =
     (if isWordChar c \<and> \<not> prevWord then toUpperCase_word c else c)
       # upcaseWordStarts (isWordChar c) cs"

definition segmentName :: "string \<Rightarrow> string" where
  "segmentName segment =
     upcaseWordStarts False (map (\<lambda>c. if c = CHR ''-'' then CHR '' '' else c) segment)"

text \<open>The callback of \<open>pathSegments.forEach\<close>; its state is \<open>currentPath\<close> and
  \<open>breadcrumbs\<close>.\<close>

definition eachSegment ::
  "URL_ctor \<Rightarrow> string \<Rightarrow> URL \<Rightarrow> nat \<Rightarrow> string \<Rightarrow> string \<times> breadcrumb list
     \<Rightarrow> exn + (string \<times> breadcrumb list)" where
  "eachSegment newURL pageUrl urlObj index segment st =
     (let currentPath = fst st @ ''/'' @ segment;
          urlPath = protocol urlObj @ ''//'' @ host urlObj @ currentPath
      in (case ensureTrailingSlash newURL pageUrl urlPath of
            Inl e \<Rightarrow> Inl e
          | Inr urlPath \<Rightarrow>
              Inr (currentPath,
                   snd st @ [\<lparr>name = segmentName segment, url = urlPath, position = index + 2\<rparr>])))"

text \<open>The branch \<open>if (!found)\<close>: breadcrumbs built from the path of the page URL.\<close>

definition fromUrlPath ::
  "URL_ctor \<Rightarrow> string \<Rightarrow> breadcrumb list \<Rightarrow> exn + breadcrumb list" where
  "fromUrlPath newURL pageUrl breadcrumbs =
     (case newURL pageUrl None of
        Inl e \<Rightarrow> Inl e
      | Inr urlObj \<Rightarrow>
          (let pathSegments = filter (\<lambda>s. length s > 0) (split (pathname urlObj) CHR ''/'')
           in (case ensureTrailingSlash newURL pageUrl (protocol urlObj @ ''//'' @ host urlObj) of
                 Inl e \<Rightarrow> Inl e
               | Inr home \<Rightarrow>
                   (case each (eachSegment newURL pageUrl urlObj) pathSegments 0
                           ([], breadcrumbs @ [\<lparr>name = ''Home'', url = home, position = 1\<rparr>]) of
                      Inl e \<Rightarrow> Inl e
                    | Inr st \<Rightarrow> Inr (snd st)))))"

definition extractBreadcrumbs ::
  "URL_ctor \<Rightarrow> cheerio \<Rightarrow> string \<Rightarrow> exn + breadcrumb list" where
  "extractBreadcrumbs newURL doc pageUrl =
     (case trySelectors newURL doc pageUrl breadcrumbSelectors of
        Inl e \<Rightarrow> Inl e
      | Inr (found, breadcrumbs) \<Rightarrow>
          if \<not> found then fromUrlPath newURL pageUrl breadcrumbs else Inr breadcrumbs)"

text \<open>Example documents: a leaf element with a text and attributes, and the document
  in which only the given selector matches.\<close>

definition leaf :: "string \<Rightarrow> (string \<times> string) list \<Rightarrow> element" where
  "leaf t attrs = Element ''tag'' t attrs None (\<lambda>_. []) (\<lambda>_. False) None (\<lambda>_. t)"

definition only :: "string \<Rightarrow> element list \<Rightarrow> cheerio" where
  "only selector els = (\<lambda>s. if s = selector then els else [])"

text \<open>\<open>new URL(input, base)\<close> returns the URL with this protocol, host and path, and
  no query or fragment.\<close>

definition parsesAs ::
  "URL_ctor \<Rightarrow> string \<Rightarrow> string option \<Rightarrow> string \<Rightarrow> string \<Rightarrow> string \<Rightarrow> bool" where
  "parsesAs newURL input base p h path \<longleftrightarrow> newURL input base = Inr (mkURL p h path [] [])"

section \<open>Article body\<close>

definition contentSelectors :: "string list" where
  "contentSelectors =
     [''article p'', ''.post-content p'', ''.entry-content p'', ''.article-content p'',
      ''.content p'', ''main p'']"

definition containerSelectors :: "string list" where
  \<open>containerSelectors =
     [''[property="articleBody"]'', ''.article-body'', ''.post-body'', ''.entry-body'',
      ''.article-content'', ''.post-content'', ''.entry-content'', ''.content-area'',
      ''.main-content'', ''article'', ''.content'', ''main'']\<close>

definition unwantedSelector :: string where
  "unwantedSelector =
     ''script, style, nav, header, footer, .navigation, .breadcrumb, .social-share, ''
     @ ''.comments, .sidebar, .related-posts, .author-box, .tags, .categories, .meta, ''
     @ ''.advertisement, .ads, .social-media, .share-buttons''"

text \<open>\<open>s.replace(/\s+/g, ' ')\<close>: every maximal run of white space becomes one space.\<close>

function collapseWhiteSpace :: "string \<Rightarrow> string" where
  "collapseWhiteSpace [] = []"
| "collapseWhiteSpace (c # cs) =
     (if isWhiteSpace c then CHR '' '' # collapseWhiteSpace (dropWhile isWhiteSpace cs)
      else c # collapseWhiteSpace cs)"
  by pat_completeness auto
termination
  by (relation "measure length") (auto simp add: length_dropWhile_le less_Suc_eq_le)

text \<open>The callback of \<open>paragraphs.each\<close>; its state is \<open>combinedText\<close>.\<close>

definition eachParagraph :: "element \<Rightarrow> string \<Rightarrow> string" where
  "eachParagraph elem combinedText =
     (let text = trim (el_text elem)
      in if length text > 20 then combinedText @ text @ '' '' else combinedText)"

text \<open>The bodies of the two \<open>for\<close> loops; their state is \<open>fullText\<close>.\<close>

definition paragraphStep :: "cheerio \<Rightarrow> string \<Rightarrow> string \<Rightarrow> string" where
  "paragraphStep doc selector fullText =
     (let paragraphs = doc selector
      in if length paragraphs > 5 then
           (let combinedText = fold eachParagraph paragraphs []
            in if length combinedText > length fullText then combinedText else fullText)
         else fullText)"

definition containerStep :: "cheerio \<Rightarrow> string \<Rightarrow> string \<Rightarrow> string" where
  "containerStep doc selector fullText =
     (case first_sel (doc selector) of
        [] \<Rightarrow> fullText
      | contentElement # _ \<Rightarrow>
          (let content = trim (el_textAfterRemove contentElement unwantedSelector);
               cleanContent = trim (collapseWhiteSpace content)
           in if length cleanContent > length fullText \<and> length cleanContent > 200
              then cleanContent else fullText))"

text \<open>\<open>extractArticleBody($)\<close>; \<open>None\<close> is \<open>undefined\<close>.\<close>

definition extractArticleBody :: "cheerio \<Rightarrow> string option" where
  "extractArticleBody doc =
     (let fullText = fold (paragraphStep doc) contentSelectors [];
          fullText = (if length fullText < 500
                      then fold (containerStep doc) containerSelectors fullText
                      else fullText)
      in if length fullText > 200 then Some (trim (collapseWhiteSpace fullText)) else None)"

text \<open>An article of six paragraphs, each a line broken in the HTML source.\<close>

definition brokenLine :: string where
  "brokenLine = ''a'' @ replicate 31 CHR '' '' @ ''b''"

definition articleDoc :: cheerio where
  "articleDoc selector =
     (if selector = ''article p'' then replicate 6 (leaf brokenLine [])
      else if selector = ''article'' then [leaf (concat (replicate 6 brokenLine)) []]
      else [])"

section \<open>FAQs\<close>

text \<open>The values that \<open>JSON.parse\<close> returns. A number is the exact value of the
  double; an object lists its own properties, each key once.\<close>

datatype json =
  JNull | JBool bool | JNum rat | JStr string | JArr "json list" | JObj "(string \<times> json) list"

record faq =
  question :: json
  answer :: json

text \<open>\<open>v[key]\<close> for the keys that the scraper reads, none of which is a property of a
  prototype: \<open>None\<close> is \<open>undefined\<close>, and reading a property of \<open>null\<close> throws.\<close>

definition getProp :: "json \<Rightarrow> string \<Rightarrow> exn + json option" where
  "getProp v key =
     (case v of JNull \<Rightarrow> Inl TypeError | JObj props \<Rightarrow> Inr (map_of props key) | _ \<Rightarrow> Inr None)"

definition truthy_json :: "json option \<Rightarrow> bool" where
  "truthy_json v \<longleftrightarrow>
     (case v of
        None \<Rightarrow> False
      | Some JNull \<Rightarrow> False
      | Some (JBool b) \<Rightarrow> b
      | Some (JNum x) \<Rightarrow> x \<noteq> 0
      | Some (JStr s) \<Rightarrow> s \<noteq> []
      | Some _ \<Rightarrow> True)"

definition or_json :: "json option \<Rightarrow> json option \<Rightarrow> json option" where
  "or_json a b = (if truthy_json a then a else b)"

definition andThen :: "exn + 'a \<Rightarrow> ('a \<Rightarrow> exn + 'b) \<Rightarrow> exn + 'b" where
  "andThen r f = (case r of Inl e \<Rightarrow> Inl e | Inr x \<Rightarrow> f x)"

text \<open>\<open>s.toLowerCase()\<close> on the code units below 256, and the call
  \<open>v.toLowerCase()\<close> on a value, which throws unless \<open>v\<close> is a string.\<close>

definition toLowerCase_char :: "char \<Rightarrow> char" where
  "toLowerCase_char c =
     (let n = (of_char c :: nat)
      in if (65 \<le> n \<and> n \<le> 90) \<or> (192 \<le> n \<and> n \<le> 222 \<and> n \<noteq> 215)
         then char_of (n + 32) else c)"

definition toLowerCase :: "string \<Rightarrow> string" where
  "toLowerCase s = map toLowerCase_char s"

definition toLowerCase_call :: "json \<Rightarrow> exn + string" where
  "toLowerCase_call v = (case v of JStr s \<Rightarrow> Inr (toLowerCase s) | _ \<Rightarrow> Inl TypeError)"

definition push :: "faq list \<Rightarrow> json \<Rightarrow> json \<Rightarrow> faq list" where
  "push faqs q a = faqs @ [\<lparr>question = q, answer = a\<rparr>]"

subsection \<open>Method 1: microdata\<close>

definition sel_FAQPage :: string where
  \<open>sel_FAQPage = ''[itemtype="https://schema.org/FAQPage"]''\<close>

definition sel_mainEntity :: string where
  \<open>sel_mainEntity = ''[itemprop="mainEntity"]''\<close>

definition sel_name :: string where
  \<open>sel_name = ''[itemprop="name"]''\<close>

definition sel_answerText :: string where
  \<open>sel_answerText = ''[itemprop="acceptedAnswer"] [itemprop="text"]''\<close>

definition eachQuestionItem :: "element \<Rightarrow> faq list \<Rightarrow> faq list" where
  "eachQuestionItem questionItem faqs =
     (let q = trim (text_sel (el_find questionItem sel_name));
          a = trim (text_sel (el_find questionItem sel_answerText))
      in if q \<noteq> [] \<and> a \<noteq> [] then push faqs (JStr q) (JStr a) else faqs)"

definition method1 :: "cheerio \<Rightarrow> faq list \<Rightarrow> faq list" where
  "method1 doc faqs =
     fold (\<lambda>element. fold eachQuestionItem (el_find element sel_mainEntity))
          (doc sel_FAQPage) faqs"

subsection \<open>Method 2: JSON-LD\<close>

definition sel_ldjson :: string where
  \<open>sel_ldjson = ''script[type="application/ld+json"]''\<close>

text \<open>The callback of \<open>data.mainEntity.forEach\<close>.\<close>

definition eachQuestion :: "json \<Rightarrow> faq list \<Rightarrow> exn + faq list" where
  "eachQuestion item faqs =
     andThen (getProp item ''@type'') (\<lambda>ty.
     andThen (getProp item ''name'') (\<lambda>itemName.
     andThen (getProp item ''acceptedAnswer'') (\<lambda>acceptedAnswer.
       if ty = Some (JStr ''Question'') \<and> truthy_json itemName \<and> truthy_json acceptedAnswer
       then
         (case (itemName, acceptedAnswer) of
            (Some q, Some acc) \<Rightarrow>
              andThen (getProp acc ''text'') (\<lambda>accText.
              andThen (getProp acc ''name'') (\<lambda>accName.
                (case or_json (or_json accText accName) (Some (JStr [])) of
                   Some a \<Rightarrow>
                     if truthy_json (Some q) \<and> truthy_json (Some a)
                     then Inr (push faqs q a) else Inr faqs
                 | None \<Rightarrow> Inr faqs)))
          | _ \<Rightarrow> Inr faqs)
       else Inr faqs)))"

text \<open>\<open>forEach\<close> over the main entity: a callback that throws ends the loop, and what
  was pushed before stays in \<open>faqs\<close>.\<close>

fun forEachQuestion :: "json list \<Rightarrow> faq list \<Rightarrow> faq list \<times> exn option" where
  "forEachQuestion [] faqs = (faqs, None)"
| "forEachQuestion (item # items) faqs =
     (case eachQuestion item faqs of
        Inl e \<Rightarrow> (faqs, Some e)
      | Inr faqs' \<Rightarrow> forEachQuestion items faqs')"

text \<open>The callback of the loop over the script tags. \<open>JSON.parse\<close> is a parameter; its
  \<open>SyntaxError\<close>, and every \<open>TypeError\<close> of the body (a property of \<open>null\<close>, a main
  entity without \<open>forEach\<close>), end in the empty \<open>catch\<close>.\<close>

definition eachScript :: "(string \<Rightarrow> exn + json) \<Rightarrow> element \<Rightarrow> faq list \<Rightarrow> faq list" where
  "eachScript JSON_parse element faqs =
     (case JSON_parse (case el_html element of None \<Rightarrow> [] | Some h \<Rightarrow> h) of
        Inl e \<Rightarrow> faqs
      | Inr data \<Rightarrow>
          (case getProp data ''@type'' of
             Inl e \<Rightarrow> faqs
           | Inr ty \<Rightarrow>
               if ty \<noteq> Some (JStr ''FAQPage'') then faqs else
               (case getProp data ''mainEntity'' of
                  Inl e \<Rightarrow> faqs
                | Inr mainEntity \<Rightarrow>
                    if \<not> truthy_json mainEntity then faqs else
                    (case mainEntity of
                       Some (JArr items) \<Rightarrow> fst (forEachQuestion items faqs)
                     | _ \<Rightarrow> faqs))))"

definition method2 :: "(string \<Rightarrow> exn + json) \<Rightarrow> cheerio \<Rightarrow> faq list \<Rightarrow> faq list" where
  "method2 JSON_parse doc faqs = fold (eachScript JSON_parse) (doc sel_ldjson) faqs"

subsection \<open>Methods 3 to 5: patterns of the page\<close>

text \<open>The \<open>while\<close> loop of method 3 over the next siblings.\<close>

fun skipBlankText :: "element option \<Rightarrow> element option" where
  "skipBlankText None = None"
| "skipBlankText (Some (Element ty tx attrs ht fnd iss nxt twr)) =
     (if ty = ''text'' \<and> trim tx = [] then skipBlankText nxt
      else Some (Element ty tx attrs ht fnd iss nxt twr))"

definition eachFaqContentH3 :: "element \<Rightarrow> faq list \<Rightarrow> faq list" where
  "eachFaqContentH3 element faqs =
     (let q = trim (el_text element);
          a = (case skipBlankText (el_next element) of
                 None \<Rightarrow> []
               | Some n \<Rightarrow> if el_is n ''div'' then trim (el_text n) else [])
      in if q \<noteq> [] \<and> a \<noteq> [] then push faqs (JStr q) (JStr a) else faqs)"

definition method3 :: "cheerio \<Rightarrow> faq list \<Rightarrow> faq list" where
  "method3 doc faqs =
     (if length faqs = 0 then fold eachFaqContentH3 (doc ''.faq-content h3'') faqs else faqs)"

definition eachH3 :: "element \<Rightarrow> faq list \<Rightarrow> faq list" where
  "eachH3 element faqs =
     (case el_next element of
        None \<Rightarrow> faqs
      | Some nextEl \<Rightarrow>
          if el_is nextEl ''p, div'' then
            (let q = trim (el_text element); a = trim (el_text nextEl)
             in if q \<noteq> [] \<and> a \<noteq> [] then push faqs (JStr q) (JStr a) else faqs)
          else faqs)"

definition method4 :: "cheerio \<Rightarrow> faq list \<Rightarrow> faq list" where
  "method4 doc faqs = (if length faqs = 0 then fold eachH3 (doc ''h3'') faqs else faqs)"

definition eachFaqItem :: "element \<Rightarrow> faq list \<Rightarrow> faq list" where
  "eachFaqItem element faqs =
     (let q = trim (text_sel (first_sel (el_find element ''h3, h4, .faq-question'')));
          a = trim (text_sel (first_sel
                (not_sel (el_find element ''div, p, .faq-answer'') ''h3, h4, .faq-question'')))
      in if q \<noteq> [] \<and> a \<noteq> [] then push faqs (JStr q) (JStr a) else faqs)"

definition method5 :: "cheerio \<Rightarrow> faq list \<Rightarrow> faq list" where
  "method5 doc faqs =
     (if length faqs = 0 then fold eachFaqItem (doc ''.faq-content .faq-item'') faqs else faqs)"

subsection \<open>The cascade, the clean-up and the outer \<open>catch\<close>\<close>

definition allMethods :: "(string \<Rightarrow> exn + json) \<Rightarrow> cheerio \<Rightarrow> faq list" where
  "allMethods JSON_parse doc =
     method5 doc (method4 doc (method3 doc (method2 JSON_parse doc (method1 doc []))))"

text \<open>The callback of \<open>findIndex\<close>:
  \<open>f.question.toLowerCase() === faq.question.toLowerCase()\<close>.\<close>

definition questionKey :: "faq \<Rightarrow> exn + string" where
  "questionKey f = toLowerCase_call (question f)"

definition sameQuestion :: "faq \<Rightarrow> faq \<Rightarrow> exn + bool" where
  "sameQuestion faq f =
     andThen (questionKey f) (\<lambda>a. andThen (questionKey faq) (\<lambda>b. Inr (a = b)))"

fun findIndex :: "('a \<Rightarrow> exn + bool) \<Rightarrow> 'a list \<Rightarrow> nat \<Rightarrow> exn + int" where
  "findIndex p [] i = Inr (- 1)"
| "findIndex p (x # xs) i =
     (case p x of
        Inl e \<Rightarrow> Inl e
      | Inr b \<Rightarrow> if b then Inr (int i) else findIndex p xs (Suc i))"

text \<open>\<open>xs.filter((x, index) => ...)\<close> with a callback that may throw.\<close>

fun filterIndexed :: "('a \<Rightarrow> nat \<Rightarrow> exn + bool) \<Rightarrow> 'a list \<Rightarrow> nat \<Rightarrow> exn + 'a list" where
  "filterIndexed p [] i = Inr []"
| "filterIndexed p (x # xs) i =
     (case p x i of
        Inl e \<Rightarrow> Inl e
      | Inr b \<Rightarrow>
          (case filterIndexed p xs (Suc i) of
             Inl e \<Rightarrow> Inl e
           | Inr ys \<Rightarrow> Inr (if b then x # ys else ys)))"

definition uniqueFaqs :: "faq list \<Rightarrow> exn + faq list" where
  "uniqueFaqs faqs =
     filterIndexed
       (\<lambda>faq index. andThen (findIndex (sameQuestion faq) faqs 0) (\<lambda>k. Inr (int index = k)))
       faqs 0"

text \<open>The body of the \<open>try\<close>, and \<open>extractFaqs($)\<close> with its \<open>catch\<close>.\<close>

definition extractFaqs_try :: "(string \<Rightarrow> exn + json) \<Rightarrow> cheerio \<Rightarrow> exn + faq list" where
  "extractFaqs_try JSON_parse doc =
     andThen (uniqueFaqs (allMethods JSON_parse doc)) (\<lambda>u. Inr (take 20 u))"

definition extractFaqs :: "(string \<Rightarrow> exn + json) \<Rightarrow> cheerio \<Rightarrow> exn + faq list" where
  "extractFaqs JSON_parse doc =
     (case extractFaqs_try JSON_parse doc of Inl e \<Rightarrow> Inr [] | Inr faqs \<Rightarrow> Inr faqs)"

subsection \<open>Example pages\<close>

text \<open>The values of \<open>JSON.parse\<close> at the script texts of the examples: a FAQ page with
  one question, one with two questions that differ in case only, one whose question name
  is the number 5, and a text that is not JSON.\<close>

definition faqJson :: string where
  \<open>faqJson = ''{"@type":"FAQPage","mainEntity":[{"@type":"Question","name":"Q1",''
     @ ''"acceptedAnswer":{"text":"A1"}}]}''\<close>

definition faqJsonCase :: string where
  \<open>faqJsonCase = ''{"@type":"FAQPage","mainEntity":[{"@type":"Question","name":"Q1",''
     @ ''"acceptedAnswer":{"text":"A1"}},{"@type":"Question","name":"q1",''
     @ ''"acceptedAnswer":{"text":"A2"}}]}''\<close>

definition faqJsonNumber :: string where
  \<open>faqJsonNumber = ''{"@type":"FAQPage","mainEntity":[{"@type":"Question","name":5,''
     @ ''"acceptedAnswer":{"text":"A1"}}]}''\<close>

definition questionJson :: "json \<Rightarrow> string \<Rightarrow> json" where
  "questionJson q a =
     JObj [(''@type'', JStr ''Question''), (''name'', q),
           (''acceptedAnswer'', JObj [(''text'', JStr a)])]"

definition faqPageJson :: "json list \<Rightarrow> json" where
  "faqPageJson items = JObj [(''@type'', JStr ''FAQPage''), (''mainEntity'', JArr items)]"

definition JSON_examples :: "string \<Rightarrow> exn + json" where
  "JSON_examples s =
     (if s = faqJson then Inr (faqPageJson [questionJson (JStr ''Q1'') ''A1''])
      else if s = faqJsonCase
        then Inr (faqPageJson [questionJson (JStr ''Q1'') ''A1'', questionJson (JStr ''q1'') ''A2''])
      else if s = faqJsonNumber then Inr (faqPageJson [questionJson (JNum 5) ''A1''])
      else if s = ''{'' then Inl SyntaxError
      else Inl SyntaxError)"

definition script :: "string \<Rightarrow> element" where
  "script h = Element ''script'' [] [] (Some h) (\<lambda>_. []) (\<lambda>_. False) None (\<lambda>_. [])"

text \<open>A heading followed by a paragraph.\<close>

definition h3_p :: "string \<Rightarrow> string \<Rightarrow> element" where
  "h3_p q a =
     Element ''tag'' q [] None (\<lambda>_. []) (\<lambda>_. False)
       (Some (Element ''tag'' a [] None (\<lambda>_. []) (\<lambda>s. s = ''p, div'') None (\<lambda>_. a)))
       (\<lambda>_. q)"

text \<open>A page with a script that is not JSON, a FAQ script and a heading with a
  paragraph; the same page without the first script; a page whose FAQ script names a
  question 5; a page whose FAQ script repeats a question in another case.\<close>

definition faqDoc :: cheerio where
  "faqDoc selector =
     (if selector = sel_ldjson then [script ''{'', script faqJson]
      else if selector = ''h3'' then [h3_p ''Heading'' ''Paragraph'']
      else [])"

definition faqDocValid :: cheerio where
  "faqDocValid selector =
     (if selector = sel_ldjson then [script faqJson]
      else if selector = ''h3'' then [h3_p ''Heading'' ''Paragraph'']
      else [])"

definition faqDocNumber :: cheerio where
  "faqDocNumber = only sel_ldjson [script faqJsonNumber]"

definition faqDocCase :: cheerio where
  "faqDocCase = only sel_ldjson [script faqJsonCase]"

section \<open>Resolving a reference never throws\<close>

text \<open>
  C9. For every base URL and every string \<open>R\<close>, \<open>makeAbsoluteUrl\<close> returns a value
  (it never throws), and when the URL constructor rejects \<open>R\<close> against the base it
  returns \<open>R\<close> unchanged.
\<close>

theorem makeAbsoluteUrl_never_throws:
  "(\<exists>s. makeAbsoluteUrl newURL R A = Inr s) \<and>
   (\<forall>e. newURL R (Some A) = Inl e \<longrightarrow> makeAbsoluteUrl newURL R A = Inr R)"
  by (simp add: makeAbsoluteUrl_def split: sum.splits)

theorem makeAbsoluteUrl_never_throws_witness:
  "URL_examples ''http://[x'' (Some ''https://ex.com/a/b-c'') = Inl TypeError \<and>
   makeAbsoluteUrl URL_examples ''http://[x'' ''https://ex.com/a/b-c'' = Inr ''http://[x''"
  using makeAbsoluteUrl_never_throws
    [of URL_examples "''http://[x''" "''https://ex.com/a/b-c''"]
  by (simp add: URL_examples_def)


section \<open>The title cascade\<close>

lemma dropWhile_trim: "dropWhile isWhiteSpace (trim s) = trim s"
  unfolding trim_def
  by (metis (no_types, lifting) Nil_is_rev_conv dropWhile_eq_Nil_conv
    dropWhile_eq_self_iff dropWhile_last hd_dropWhile hd_rev
    last_rev)

lemma trim_trim: "trim (trim s) = trim s"
proof -
  have "trim (trim s) = rev (dropWhile isWhiteSpace (rev (trim s)))"
    by (simp add: trim_def[of "trim s"] dropWhile_trim)
  also have "\<dots> = trim s"
    by (simp add: trim_def)
  finally show ?thesis .
qed

lemma trim_Nil: "trim [] = []"
  by (simp add: trim_def)

lemma text_sel_Nil: "text_sel [] = []"
  by (simp add: text_sel_def)

text \<open>
  C6, as amended. The title extractor returns the trimmed text of the title tags when
  that is not empty; otherwise the content attribute of the Open Graph title meta, as it
  stands, when that is a non-empty string; otherwise the trimmed text of the first
  \<open>h1\<close> when that is not empty; otherwise null. The results taken from the title tag and
  from the heading are white-space trimmed. A document with an Open Graph title content
  \<open>X\<close> and no title tag yields \<open>X\<close>.
\<close>

theorem extractTitle_cascade:
  "(trim (text_sel (doc ''title'')) \<noteq> [] \<longrightarrow>
      extractTitle doc = Some (trim (text_sel (doc ''title'')))) \<and>
   (trim (text_sel (doc ''title'')) = [] \<and> truthy (attr_sel (doc sel_ogTitle) ''content'') \<longrightarrow>
      extractTitle doc = attr_sel (doc sel_ogTitle) ''content'') \<and>
   (trim (text_sel (doc ''title'')) = [] \<and> \<not> truthy (attr_sel (doc sel_ogTitle) ''content'') \<and>
    trim (text_sel (first_sel (doc ''h1''))) \<noteq> [] \<longrightarrow>
      extractTitle doc = Some (trim (text_sel (first_sel (doc ''h1''))))) \<and>
   (trim (text_sel (doc ''title'')) = [] \<and> \<not> truthy (attr_sel (doc sel_ogTitle) ''content'') \<and>
    trim (text_sel (first_sel (doc ''h1''))) = [] \<longrightarrow>
      extractTitle doc = None) \<and>
   trim (trim (text_sel (doc ''title''))) = trim (text_sel (doc ''title'')) \<and>
   trim (trim (text_sel (first_sel (doc ''h1'')))) = trim (text_sel (first_sel (doc ''h1''))) \<and>
   (doc ''title'' = [] \<and> attr_sel (doc sel_ogTitle) ''content'' = Some X \<and> X \<noteq> [] \<longrightarrow>
      extractTitle doc = Some X)"
  by (simp add: extractTitle_def or_js_def truthy_def trim_trim text_sel_Nil trim_Nil)

theorem extractTitle_cascade_witness:
  "extractTitle (only sel_ogTitle [leaf [] [(''content'', ''X'')]]) = Some ''X''"
  using extractTitle_cascade [of "only sel_ogTitle [leaf [] [(''content'', ''X'')]]" "''X''"]
  by (simp add: only_def sel_ogTitle_def attr_sel_def leaf_def)

text \<open>
  C6 as stated fails: the content of the Open Graph title meta is returned without
  trimming. With the content \<open>" X "\<close> and no title tag the result is \<open>" X "\<close>.
\<close>

theorem extractTitle_untrimmed:
  "extractTitle (only sel_ogTitle [leaf [] [(''content'', '' X '')]]) = Some '' X '' \<and>
   trim '' X '' \<noteq> '' X ''"
  by (simp add: extractTitle_def only_def sel_ogTitle_def attr_sel_def leaf_def or_js_def truthy_def
      text_sel_def trim_def first_sel_def isWhiteSpace_def)

section \<open>Breadcrumbs from the URL path\<close>

lemma trySelectors_none:
  "\<forall>selector \<in> set sels. doc selector = [] \<Longrightarrow> trySelectors newURL doc pageUrl sels = Inr (False, [])"
  by (induction sels) auto

text \<open>
  C7. For a document in which no breadcrumb selector matches and the page URL
  \<open>https://ex.com/a/b-c\<close>, the breadcrumbs are Home at \<open>https://ex.com/\<close> (position 1),
  \<open>A\<close> at \<open>https://ex.com/a/\<close> (position 2) and \<open>B C\<close> at \<open>https://ex.com/a/b-c/\<close>
  (position 3). The hypotheses on the URL constructor state what it returns for the
  page URL and for the three prefixes.
\<close>

theorem extractBreadcrumbs_scenario:
  assumes "\<forall>selector \<in> set breadcrumbSelectors. doc selector = []"
    and "parsesAs newURL ''https://ex.com/a/b-c'' None ''https:'' ''ex.com'' ''/a/b-c''"
    and "parsesAs newURL ''https://ex.com'' (Some ''https://ex.com/a/b-c'') ''https:'' ''ex.com'' ''/''"
    and "parsesAs newURL ''https://ex.com/a'' (Some ''https://ex.com/a/b-c'') ''https:'' ''ex.com'' ''/a''"
    and "parsesAs newURL ''https://ex.com/a/b-c'' (Some ''https://ex.com/a/b-c'') ''https:'' ''ex.com'' ''/a/b-c''"
  shows "extractBreadcrumbs newURL doc ''https://ex.com/a/b-c'' =
     Inr [\<lparr>name = ''Home'', url = ''https://ex.com/'', position = 1\<rparr>,
          \<lparr>name = ''A'', url = ''https://ex.com/a/'', position = 2\<rparr>,
          \<lparr>name = ''B C'', url = ''https://ex.com/a/b-c/'', position = 3\<rparr>]"
proof -
  have sel: "trySelectors newURL doc ''https://ex.com/a/b-c'' breadcrumbSelectors = Inr (False, [])"
    using assms(1) by (rule trySelectors_none)
  have segs: "filter (\<lambda>s. s \<noteq> []) (split ''/a/b-c'' CHR ''/'') = [''a'', ''b-c'']"
    by (simp add: split_def)
  have home: "ensureTrailingSlash newURL ''https://ex.com/a/b-c'' ''https://ex.com'' = Inr ''https://ex.com/''"
    using assms(3) by (simp add: ensureTrailingSlash_def endsWith_def parsesAs_def mkURL_def)
  have a: "ensureTrailingSlash newURL ''https://ex.com/a/b-c'' ''https://ex.com/a'' = Inr ''https://ex.com/a/''"
    using assms(4) by (simp add: ensureTrailingSlash_def endsWith_def parsesAs_def mkURL_def)
  have bc: "ensureTrailingSlash newURL ''https://ex.com/a/b-c'' ''https://ex.com/a/b-c'' = Inr ''https://ex.com/a/b-c/''"
    using assms(5) by (simp add: ensureTrailingSlash_def endsWith_def parsesAs_def mkURL_def)
  have na: "segmentName ''a'' = ''A''"
    by (simp add: segmentName_def isWordChar_def toUpperCase_word_def char_of_def bit_Suc_0_iff)
  have nbc: "segmentName ''b-c'' = ''B C''"
    by (simp add: segmentName_def isWordChar_def toUpperCase_word_def char_of_def bit_Suc_0_iff)
  show ?thesis
    using assms(2)
    by (simp add: extractBreadcrumbs_def sel fromUrlPath_def parsesAs_def mkURL_def
        segs home eachSegment_def a bc na nbc)
qed

theorem extractBreadcrumbs_scenario_witness:
  "extractBreadcrumbs URL_examples (\<lambda>_. []) ''https://ex.com/a/b-c'' =
     Inr [\<lparr>name = ''Home'', url = ''https://ex.com/'', position = 1\<rparr>,
          \<lparr>name = ''A'', url = ''https://ex.com/a/'', position = 2\<rparr>,
          \<lparr>name = ''B C'', url = ''https://ex.com/a/b-c/'', position = 3\<rparr>]"
  using extractBreadcrumbs_scenario [of "\<lambda>_. []" URL_examples]
  by (simp add: parsesAs_def URL_examples_def)

section \<open>The first matching selector commits\<close>

lemma trySelectors_find:
  "trySelectors newURL doc pageUrl sels =
     (case List.find (\<lambda>s. doc s \<noteq> []) sels of
        None \<Rightarrow> Inr (False, [])
      | Some selector \<Rightarrow>
          (case each (eachLink newURL pageUrl) (doc selector) 0 [] of
             Inl e \<Rightarrow> Inl e | Inr bs \<Rightarrow> Inr (True, bs)))"
  by (induction sels) auto

lemma each_all_skipped:
  "\<forall>e \<in> set els. trim (el_text e) = [] \<or> \<not> truthy (map_of (el_attribs e) ''href'') \<Longrightarrow>
   each (eachLink newURL pageUrl) els i bs = Inr bs"
  by (induction els arbitrary: i) (auto simp add: eachLink_def)

text \<open>
  C10. When no breadcrumb selector matches an element, the result is the one built from
  the URL path. Otherwise the result is what the links of the first matching selector
  give, and the URL path is not used: in particular, when each of these links lacks a
  display text or an href, the result is the empty list.
\<close>

theorem selector_branch_commits:
  "(List.find (\<lambda>s. doc s \<noteq> []) breadcrumbSelectors = None \<longrightarrow>
      extractBreadcrumbs newURL doc pageUrl = fromUrlPath newURL pageUrl []) \<and>
   (\<forall>selector. List.find (\<lambda>s. doc s \<noteq> []) breadcrumbSelectors = Some selector \<longrightarrow>
      extractBreadcrumbs newURL doc pageUrl = each (eachLink newURL pageUrl) (doc selector) 0 [] \<and>
      ((\<forall>e \<in> set (doc selector).
           trim (el_text e) = [] \<or> \<not> truthy (map_of (el_attribs e) ''href'')) \<longrightarrow>
         extractBreadcrumbs newURL doc pageUrl = Inr []))"
  by (auto simp add: extractBreadcrumbs_def trySelectors_find each_all_skipped split: sum.splits)

theorem selector_branch_commits_witness:
  "List.find (\<lambda>s. only ''.breadcrumbs a'' [leaf ''Home'' []] s \<noteq> []) breadcrumbSelectors
     = Some ''.breadcrumbs a'' \<and>
   extractBreadcrumbs URL_examples (only ''.breadcrumbs a'' [leaf ''Home'' []]) ''https://ex.com/a/b-c''
     = Inr [] \<and>
   fromUrlPath URL_examples ''https://ex.com/a/b-c'' [] \<noteq> Inr []"
proof -
  let ?doc = "only ''.breadcrumbs a'' [leaf ''Home'' []]"
  have f: "List.find (\<lambda>s. ?doc s \<noteq> []) breadcrumbSelectors = Some ''.breadcrumbs a''"
    by (simp add: only_def breadcrumbSelectors_def)
  have sk: "\<forall>e \<in> set (?doc ''.breadcrumbs a'').
              trim (el_text e) = [] \<or> \<not> truthy (map_of (el_attribs e) ''href'')"
    by (simp add: only_def leaf_def truthy_def)
  have "extractBreadcrumbs URL_examples ?doc ''https://ex.com/a/b-c'' = Inr []"
    using selector_branch_commits [of ?doc URL_examples "''https://ex.com/a/b-c''"] f sk
    by blast
  moreover have "fromUrlPath URL_examples ''https://ex.com/a/b-c'' [] \<noteq> Inr []"
    by (simp add: fromUrlPath_def URL_examples_def mkURL_def ensureTrailingSlash_def
        endsWith_def split_def eachSegment_def)
  ultimately show ?thesis using f by simp
qed

section \<open>Positions\<close>

text \<open>The breadcrumbs built from the URL path are numbered 1, 2, 3, ... in the order
  of the output.\<close>

lemma eachSegment_positions:
  "each (eachSegment newURL pageUrl urlObj) segs i st = Inr st' \<Longrightarrow>
   map position (snd st') = map position (snd st) @ map (\<lambda>k. Suc (Suc (i + k))) [0 ..< length segs]"
proof (induction segs arbitrary: i st)
  case Nil
  then show ?case by simp
next
  case (Cons seg segs)
  from Cons.prems obtain st1 where
    s1: "eachSegment newURL pageUrl urlObj i seg st = Inr st1" and
    s2: "each (eachSegment newURL pageUrl urlObj) segs (Suc i) st1 = Inr st'"
    by (auto split: sum.splits)
  from s1 have p1: "map position (snd st1) = map position (snd st) @ [Suc (Suc i)]"
    by (auto simp add: eachSegment_def Let_def split: sum.splits)
  have "map (\<lambda>k. Suc (Suc (i + k))) [0 ..< Suc (length segs)]
          = Suc (Suc (i + 0)) # map (\<lambda>k. Suc (Suc (i + Suc k))) [0 ..< length segs]"
    by (rule map_upt_Suc)
  then have "map (\<lambda>k. Suc (Suc (i + k))) [0 ..< length (seg # segs)]
          = Suc (Suc i) # map (\<lambda>k. Suc (Suc (Suc i + k))) [0 ..< length segs]"
    by (simp only: length_Cons add_0_right add_Suc_right add_Suc)
  with Cons.IH [OF s2] p1 show ?case by (simp only: append_assoc append_Cons append_Nil)
qed

lemma fromUrlPath_positions:
  assumes "fromUrlPath newURL pageUrl [] = Inr bs"
  shows "map position bs = map Suc [0 ..< length bs]"
proof -
  from assms obtain urlObj home st where
    e: "each (eachSegment newURL pageUrl urlObj)
          (filter (\<lambda>s. length s > 0) (split (pathname urlObj) CHR ''/'')) 0
          ([], [\<lparr>name = ''Home'', url = home, position = 1\<rparr>]) = Inr st" and
    b: "bs = snd st"
    by (auto simp add: fromUrlPath_def Let_def split: sum.splits)
  define n where "n = length (filter (\<lambda>s. length s > 0) (split (pathname urlObj) CHR ''/''))"
  from eachSegment_positions [OF e] b
  have m: "map position bs = Suc 0 # map (\<lambda>k. Suc (Suc k)) [0 ..< n]"
    by (simp add: n_def)
  from arg_cong [OF m, of length] have l: "length bs = Suc n" by simp
  have "map Suc [0 ..< Suc n] = Suc 0 # map (\<lambda>k. Suc (Suc k)) [0 ..< n]"
    by (rule map_upt_Suc)
  with m l show ?thesis by (simp only:)
qed

text \<open>
  C1 at a document whose first breadcrumb link has no href: the second link is
  recorded with position 2, and the returned positions are not 1, 2, 3, ...
\<close>

theorem extractBreadcrumbs_position_gap:
  "extractBreadcrumbs URL_examples
     (only ''.breadcrumb a'' [leaf ''Home'' [], leaf ''X'' [(''href'', ''/x/'')]])
     ''https://ex.com/a/b-c''
   = Inr [\<lparr>name = ''X'', url = ''https://ex.com/x/'', position = 2\<rparr>]"
  by (simp add: extractBreadcrumbs_def breadcrumbSelectors_def only_def leaf_def eachLink_def
      truthy_def trim_def isWhiteSpace_def makeAbsoluteUrl_def URL_examples_def mkURL_def
      ensureTrailingSlash_def endsWith_def)

section \<open>Trailing slash\<close>

text \<open>A string that ends with a slash is returned as it is.\<close>

lemma endsWith_slash_fixed:
  "endsWith u ''/'' \<Longrightarrow> ensureTrailingSlash newURL pageUrl u = Inr u"
  by (simp add: ensureTrailingSlash_def)

text \<open>
  C8 at a link with an opaque origin: \<open>ensureTrailingSlash\<close> maps
  \<open>mailto:a@b.c?subject=Hi\<close> to \<open>nulla@b.c/?subject=Hi\<close>, and maps that result to
  \<open>https://ex.com/a/nulla@b.c/?subject=Hi\<close>. Applying it twice differs from applying
  it once.
\<close>

theorem ensureTrailingSlash_twice:
  "ensureTrailingSlash URL_examples ''https://ex.com/a/b-c'' ''mailto:a@b.c?subject=Hi''
     = Inr ''nulla@b.c/?subject=Hi'' \<and>
   ensureTrailingSlash URL_examples ''https://ex.com/a/b-c'' ''nulla@b.c/?subject=Hi''
     = Inr ''https://ex.com/a/nulla@b.c/?subject=Hi''"
  by (simp add: URL_examples_def mkURL_def ensureTrailingSlash_def endsWith_def)

section \<open>Article body\<close>

text \<open>
  C3 at an article of six paragraphs with runs of white space: the text chosen has 204
  characters before the white space is collapsed, and the text returned has 23.
\<close>

theorem extractArticleBody_short:
  "extractArticleBody articleDoc = Some ''a b a b a b a b a b a b''"
  by code_simp


section \<open>The FAQ cascade\<close>

lemma fold_appends:
  assumes "\<And>x acc. f x acc = acc @ f x []"
  shows "fold f xs acc = acc @ fold f xs []"
proof (induction xs arbitrary: acc)
  case Nil
  show ?case by simp
next
  case (Cons x xs)
  have "fold f (x # xs) acc = fold f xs (f x acc)" by simp
  also have "\<dots> = f x acc @ fold f xs []" by (rule Cons.IH)
  also have "\<dots> = acc @ f x [] @ fold f xs []" using assms [of x acc] by simp
  also have "\<dots> = acc @ fold f xs (f x [])" using Cons.IH [of "f x []"] by simp
  finally show ?case by simp
qed

lemma eachQuestionItem_appends: "eachQuestionItem e acc = acc @ eachQuestionItem e []"
  by (simp add: eachQuestionItem_def push_def Let_def)

lemma method1_appends: "method1 doc acc = acc @ method1 doc []"
  unfolding method1_def
  by (rule fold_appends, rule fold_appends, rule eachQuestionItem_appends)

lemma eachQuestion_appends:
  "eachQuestion item acc = (case eachQuestion item [] of Inl e \<Rightarrow> Inl e | Inr r \<Rightarrow> Inr (acc @ r))"
  by (simp add: eachQuestion_def andThen_def push_def split: sum.splits option.splits)

lemma forEachQuestion_appends:
  "fst (forEachQuestion items acc) = acc @ fst (forEachQuestion items [])"
proof (induction items arbitrary: acc)
  case Nil
  show ?case by simp
next
  case (Cons item items)
  show ?case
  proof (cases "eachQuestion item []")
    case (Inl e)
    then show ?thesis using eachQuestion_appends [of item acc] by simp
  next
    case (Inr r)
    then have "eachQuestion item acc = Inr (acc @ r)"
      using eachQuestion_appends [of item acc] by simp
    then show ?thesis
      using Inr Cons.IH [of "acc @ r"] Cons.IH [of r] by simp
  qed
qed

lemma eachScript_appends: "eachScript P e acc = acc @ eachScript P e []"
  using forEachQuestion_appends [of _ acc]
  by (simp add: eachScript_def split: sum.splits option.splits json.splits)

lemma method2_appends: "method2 P doc acc = acc @ method2 P doc []"
  unfolding method2_def by (rule fold_appends, rule eachScript_appends)

text \<open>
  C2. Methods 1 and 2 both run, and the pairs of method 2 are appended to those of
  method 1. Each of the methods 3, 4 and 5 leaves a non-empty list of pairs as it is.
  So the pairs after the five methods are those of methods 1 and 2 when there is one,
  and otherwise those of the first of the methods 3, 4, 5 that finds one.
\<close>

theorem faq_cascade:
  "method2 JSON_parse doc (method1 doc []) = method1 doc [] @ method2 JSON_parse doc [] \<and>
   (\<forall>faqs. faqs \<noteq> [] \<longrightarrow>
      method3 doc faqs = faqs \<and> method4 doc faqs = faqs \<and> method5 doc faqs = faqs) \<and>
   allMethods JSON_parse doc =
     (if method1 doc [] @ method2 JSON_parse doc [] \<noteq> []
        then method1 doc [] @ method2 JSON_parse doc []
      else if method3 doc [] \<noteq> [] then method3 doc []
      else if method4 doc [] \<noteq> [] then method4 doc []
      else method5 doc [])"
proof -
  have a: "method2 JSON_parse doc (method1 doc []) = method1 doc [] @ method2 JSON_parse doc []"
    by (rule method2_appends)
  have g: "\<And>faqs. faqs \<noteq> [] \<Longrightarrow>
      method3 doc faqs = faqs \<and> method4 doc faqs = faqs \<and> method5 doc faqs = faqs"
    by (simp add: method3_def method4_def method5_def)
  have "allMethods JSON_parse doc =
     (if method1 doc [] @ method2 JSON_parse doc [] \<noteq> []
        then method1 doc [] @ method2 JSON_parse doc []
      else if method3 doc [] \<noteq> [] then method3 doc []
      else if method4 doc [] \<noteq> [] then method4 doc []
      else method5 doc [])"
    unfolding allMethods_def a
    using g by (metis (full_types))
  with a g show ?thesis by blast
qed



section \<open>The FAQ clean-up\<close>

lemma filterIndexed_Inr:
  "filterIndexed p xs k = Inr ys \<Longrightarrow> x \<in> set xs \<Longrightarrow> \<exists>i b. p x i = Inr b"
proof (induction xs arbitrary: k ys)
  case Nil
  then show ?case by simp
next
  case (Cons a xs)
  then show ?case
    by (auto split: sum.splits)
qed

lemma uniqueFaqs_strings:
  assumes "uniqueFaqs faqs = Inr u" and "f \<in> set faqs"
  shows "\<exists>s. question f = JStr s"
proof -
  obtain i b where
    "andThen (findIndex (sameQuestion f) faqs 0) (\<lambda>k. Inr (int i = k)) = Inr b"
    using filterIndexed_Inr [OF assms(1) [unfolded uniqueFaqs_def] assms(2)] by blast
  then obtain k where k: "findIndex (sameQuestion f) faqs 0 = Inr k"
    by (auto simp add: andThen_def split: sum.splits)
  obtain x xs where "faqs = x # xs"
    using assms(2) by (cases faqs) auto
  with k obtain c where "sameQuestion f x = Inr c"
    by (auto split: sum.splits)
  then show ?thesis
    by (cases "question f")
      (auto simp add: sameQuestion_def andThen_def toLowerCase_call_def questionKey_def
        split: sum.splits)
qed

lemma findIndex_pure:
  "\<forall>x \<in> set xs. p x = Inr (P x) \<Longrightarrow>
   findIndex p xs k =
     Inr (if \<exists>x \<in> set xs. P x then int (k + length (takeWhile (\<lambda>x. \<not> P x) xs)) else - 1)"
  by (induction xs arbitrary: k) auto

lemma filterIndexed_pure:
  "\<forall>x \<in> set xs. \<forall>i. p x i = Inr (Q x i) \<Longrightarrow>
   filterIndexed p xs k =
     Inr (map fst (filter (\<lambda>(x, i). Q x i) (zip xs [k ..< k + length xs])))"
proof (induction xs arbitrary: k)
  case Nil
  show ?case by simp
next
  case (Cons a xs)
  have "[k ..< k + length (a # xs)] = k # [Suc k ..< Suc k + length xs]"
    by (subst upt_rec) simp
  then show ?case
    using Cons by simp
qed

lemma sameQuestion_strings:
  assumes "\<exists>s. question faq = JStr s" and "\<exists>s. question f = JStr s"
  shows "sameQuestion faq f = Inr (questionKey f = questionKey faq)"
  using assms by (auto simp add: sameQuestion_def andThen_def toLowerCase_call_def questionKey_def)

lemma uniqueFaqs_pure:
  assumes "\<forall>f \<in> set faqs. \<exists>s. question f = JStr s"
  shows "uniqueFaqs faqs =
           Inr (map fst (filter (\<lambda>(x, i). i = length (takeWhile (\<lambda>y. questionKey y \<noteq> questionKey x) faqs))
                  (zip faqs [0 ..< length faqs])))"
proof -
  have "\<forall>x \<in> set faqs. \<forall>i.
          andThen (findIndex (sameQuestion x) faqs 0) (\<lambda>k. Inr (int i = k))
            = Inr (i = length (takeWhile (\<lambda>y. questionKey y \<noteq> questionKey x) faqs))"
  proof (intro ballI allI)
    fix x i
    assume x: "x \<in> set faqs"
    have "\<forall>f \<in> set faqs. sameQuestion x f = Inr (questionKey f = questionKey x)"
      using assms x by (simp add: sameQuestion_strings)
    from findIndex_pure [OF this, of 0] x
    have "findIndex (sameQuestion x) faqs 0
            = Inr (int (length (takeWhile (\<lambda>y. questionKey y \<noteq> questionKey x) faqs)))"
      by auto
    then show "andThen (findIndex (sameQuestion x) faqs 0) (\<lambda>k. Inr (int i = k))
            = Inr (i = length (takeWhile (\<lambda>y. questionKey y \<noteq> questionKey x) faqs))"
      by (simp add: andThen_def)
  qed
  from filterIndexed_pure [OF this, of 0] show ?thesis
    by (simp add: uniqueFaqs_def)
qed


lemma zip_upt_iff:
  "(x, i) \<in> set (zip xs [0 ..< length xs]) \<longleftrightarrow> i < length xs \<and> xs ! i = x"
  by (auto simp add: in_set_zip)

lemma firstIdx_less:
  "f \<in> set xs \<Longrightarrow> length (takeWhile (\<lambda>y. key y \<noteq> key f) xs) < length xs"
  by (induction xs) auto

lemma firstIdx_key:
  "f \<in> set xs \<Longrightarrow> key (xs ! length (takeWhile (\<lambda>y. key y \<noteq> key f) xs)) = key f"
  by (induction xs) auto

lemma takeWhile_nth_holds:
  assumes "j < length (takeWhile P xs)"
  shows "P (xs ! j)"
proof -
  have "takeWhile P xs ! j \<in> set (takeWhile P xs)"
    using assms by (rule nth_mem)
  then have "P (takeWhile P xs ! j)"
    by (rule set_takeWhileD [THEN conjunct2])
  then show ?thesis
    using assms by (simp add: takeWhile_nth)
qed

lemma firsts_distinct:
  "distinct (map key (map fst (filter (\<lambda>(x, i). i = length (takeWhile (\<lambda>y. key y \<noteq> key x) xs))
                  (zip xs [0 ..< length xs]))))"
proof -
  let ?F = "filter (\<lambda>(x, i). i = length (takeWhile (\<lambda>y. key y \<noteq> key x) xs)) (zip xs [0 ..< length xs])"
  have d: "distinct ?F"
    by (simp add: distinct_zipI2)
  have "inj_on (key \<circ> fst) (set ?F)"
  proof (rule inj_onI)
    fix p q
    assume p: "p \<in> set ?F" and q: "q \<in> set ?F" and e: "(key \<circ> fst) p = (key \<circ> fst) q"
    obtain x i where pi: "p = (x, i)" by (cases p)
    obtain y j where qj: "q = (y, j)" by (cases q)
    from p pi have i: "i = length (takeWhile (\<lambda>z. key z \<noteq> key x) xs)" "xs ! i = x"
      by (auto simp add: zip_upt_iff)
    from q qj have j: "j = length (takeWhile (\<lambda>z. key z \<noteq> key y) xs)" "xs ! j = y"
      by (auto simp add: zip_upt_iff)
    from e pi qj have kxy: "key x = key y" by simp
    have ij: "i = j" by (simp only: i(1) j(1) kxy)
    have "x = y" using i(2) j(2) ij by blast
    with ij pi qj show "p = q" by blast
  qed
  with d have "distinct (map (key \<circ> fst) ?F)"
    by (simp add: distinct_map)
  then show ?thesis by simp
qed

lemma firsts_first:
  assumes "g \<in> set (map fst (filter (\<lambda>(x, i). i = length (takeWhile (\<lambda>y. key y \<noteq> key x) xs))
                  (zip xs [0 ..< length xs])))"
  shows "\<exists>i < length xs. xs ! i = g \<and> (\<forall>j < i. key (xs ! j) \<noteq> key g)"
proof -
  from assms obtain i where i: "i < length xs" "xs ! i = g"
      "i = length (takeWhile (\<lambda>y. key y \<noteq> key g) xs)"
    by (auto simp add: zip_upt_iff)
  have "\<forall>j < i. key (xs ! j) \<noteq> key g"
  proof (intro allI impI)
    fix j assume "j < i"
    then have "j < length (takeWhile (\<lambda>y. key y \<noteq> key g) xs)" using i(3) by simp
    then show "key (xs ! j) \<noteq> key g"
      by (rule takeWhile_nth_holds)
  qed
  with i show ?thesis by blast
qed

lemma firsts_complete:
  assumes "f \<in> set xs"
  shows "\<exists>g \<in> set (map fst (filter (\<lambda>(x, i). i = length (takeWhile (\<lambda>y. key y \<noteq> key x) xs))
                  (zip xs [0 ..< length xs]))). key g = key f"
proof -
  let ?i = "length (takeWhile (\<lambda>y. key y \<noteq> key f) xs)"
  have l: "?i < length xs" using assms by (rule firstIdx_less)
  have k: "key (xs ! ?i) = key f" using assms by (rule firstIdx_key)
  then have "?i = length (takeWhile (\<lambda>y. key y \<noteq> key (xs ! ?i)) xs)" by simp
  with l have "(xs ! ?i, ?i) \<in> set (filter (\<lambda>(x, i). i = length (takeWhile (\<lambda>y. key y \<noteq> key x) xs))
                  (zip xs [0 ..< length xs]))"
    by (simp add: zip_upt_iff)
  then have "xs ! ?i \<in> set (map fst (filter (\<lambda>(x, i). i = length (takeWhile (\<lambda>y. key y \<noteq> key x) xs))
                  (zip xs [0 ..< length xs])))"
    by force
  with k show ?thesis by blast
qed


text \<open>
  C4. \<open>extractFaqs\<close> returns at most 20 entries, no two of which have questions that
  are equal after \<open>toLowerCase\<close>; every entry returned is the first one, among the pairs
  that the methods found, with its lower-cased question; and when the clean-up does not
  throw, the result is the first 20 of a list that has an entry for every lower-cased
  question found.
\<close>

theorem extractFaqs_unique_capped:
  "\<exists>r. extractFaqs JSON_parse doc = Inr r \<and> length r \<le> 20 \<and>
     distinct (map questionKey r) \<and>
     (\<forall>g \<in> set r. \<exists>i < length (allMethods JSON_parse doc).
         allMethods JSON_parse doc ! i = g \<and>
         (\<forall>j < i. questionKey (allMethods JSON_parse doc ! j) \<noteq> questionKey g)) \<and>
     (\<forall>u. uniqueFaqs (allMethods JSON_parse doc) = Inr u \<longrightarrow>
         r = take 20 u \<and>
         (\<forall>f \<in> set (allMethods JSON_parse doc). \<exists>g \<in> set u. questionKey g = questionKey f))"
proof (cases "uniqueFaqs (allMethods JSON_parse doc)")
  case (Inl e)
  then have "extractFaqs JSON_parse doc = Inr []"
    by (simp add: extractFaqs_def extractFaqs_try_def andThen_def)
  with Inl show ?thesis by simp
next
  case (Inr u)
  let ?faqs = "allMethods JSON_parse doc"
  let ?u = "map fst (filter (\<lambda>(x, i). i = length (takeWhile (\<lambda>y. questionKey y \<noteq> questionKey x) ?faqs))
                  (zip ?faqs [0 ..< length ?faqs]))"
  have "\<forall>f \<in> set ?faqs. \<exists>s. question f = JStr s"
    using uniqueFaqs_strings [OF Inr] by blast
  then have "uniqueFaqs ?faqs = Inr ?u"
    by (rule uniqueFaqs_pure)
  with Inr have u: "u = ?u" by simp
  have r: "extractFaqs JSON_parse doc = Inr (take 20 u)"
    using Inr by (simp add: extractFaqs_def extractFaqs_try_def andThen_def)
  have d: "distinct (map questionKey u)"
    unfolding u by (rule firsts_distinct)
  have d20: "distinct (map questionKey (take 20 u))"
    using d by (simp add: take_map [symmetric])
  have f: "\<forall>g \<in> set (take 20 u). \<exists>i < length ?faqs. ?faqs ! i = g \<and>
         (\<forall>j < i. questionKey (?faqs ! j) \<noteq> questionKey g)"
  proof
    fix g assume "g \<in> set (take 20 u)"
    then have "g \<in> set ?u" using u by (auto dest: in_set_takeD)
    then show "\<exists>i < length ?faqs. ?faqs ! i = g \<and>
         (\<forall>j < i. questionKey (?faqs ! j) \<noteq> questionKey g)"
      by (rule firsts_first)
  qed
  have c: "\<forall>f \<in> set ?faqs. \<exists>g \<in> set u. questionKey g = questionKey f"
    unfolding u using firsts_complete [of _ ?faqs questionKey] by blast
  show ?thesis
    using r d20 f c Inr by simp
qed

theorem extractFaqs_unique_capped_witness:
  "allMethods JSON_examples faqDocCase =
     [\<lparr>question = JStr ''Q1'', answer = JStr ''A1''\<rparr>,
      \<lparr>question = JStr ''q1'', answer = JStr ''A2''\<rparr>] \<and>
   extractFaqs JSON_examples faqDocCase = Inr [\<lparr>question = JStr ''Q1'', answer = JStr ''A1''\<rparr>]"
proof -
  have a: "allMethods JSON_examples faqDocCase =
     [\<lparr>question = JStr ''Q1'', answer = JStr ''A1''\<rparr>,
      \<lparr>question = JStr ''q1'', answer = JStr ''A2''\<rparr>]"
    by code_simp
  have b: "extractFaqs JSON_examples faqDocCase
             = Inr [\<lparr>question = JStr ''Q1'', answer = JStr ''A1''\<rparr>]"
    by code_simp
  from extractFaqs_unique_capped [of JSON_examples faqDocCase] a b
  show ?thesis by blast
qed

text \<open>
  C5. \<open>extractFaqs\<close> always returns a list: when the body of its \<open>try\<close> throws, the
  list is empty. A script tag whose text \<open>JSON.parse\<close> rejects adds nothing, and the
  scan gives what it gives on the page without that tag.
\<close>

theorem extractFaqs_never_raises:
  "(\<exists>r. extractFaqs JSON_parse doc = Inr r) \<and>
   (\<forall>e. extractFaqs_try JSON_parse doc = Inl e \<longrightarrow> extractFaqs JSON_parse doc = Inr []) \<and>
   (\<forall>e. JSON_parse (case el_html element of None \<Rightarrow> [] | Some h \<Rightarrow> h) = Inl e \<longrightarrow>
        eachScript JSON_parse element faqs = faqs \<and>
        (\<forall>pre post doc'. doc sel_ldjson = pre @ element # post \<and> doc' sel_ldjson = pre @ post \<longrightarrow>
           method2 JSON_parse doc faqs = method2 JSON_parse doc' faqs))"
  by (simp add: extractFaqs_def eachScript_def method2_def split: sum.splits)

theorem extractFaqs_never_raises_witness:
  "extractFaqs_try JSON_examples faqDocNumber = Inl TypeError \<and>
   extractFaqs JSON_examples faqDocNumber = Inr [] \<and>
   JSON_examples ''{'' = Inl SyntaxError \<and>
   method2 JSON_examples faqDoc [] = method2 JSON_examples faqDocValid [] \<and>
   extractFaqs JSON_examples faqDoc = Inr [\<lparr>question = JStr ''Q1'', answer = JStr ''A1''\<rparr>]"
proof -
  have t: "extractFaqs_try JSON_examples faqDocNumber = Inl TypeError"
    by code_simp
  have p: "JSON_examples (case el_html (script ''{'') of None \<Rightarrow> [] | Some h \<Rightarrow> h)
             = Inl SyntaxError"
    by code_simp
  have d: "faqDoc sel_ldjson = [] @ script ''{'' # [script faqJson]"
    "faqDocValid sel_ldjson = [] @ [script faqJson]"
    by (simp_all add: faqDoc_def faqDocValid_def)
  have e: "extractFaqs JSON_examples faqDoc
             = Inr [\<lparr>question = JStr ''Q1'', answer = JStr ''A1''\<rparr>]"
    by code_simp
  have "extractFaqs JSON_examples faqDocNumber = Inr []"
    using extractFaqs_never_raises [of JSON_examples faqDocNumber] t by blast
  moreover have "method2 JSON_examples faqDoc [] = method2 JSON_examples faqDocValid []"
    using extractFaqs_never_raises [of JSON_examples faqDoc "script ''{''" "[]"] p d by blast
  moreover have "JSON_examples ''{'' = Inl SyntaxError"
    by code_simp
  ultimately show ?thesis using t e by blast
qed

theorem faq_cascade_witness:
  "method1 faqDoc [] @ method2 JSON_examples faqDoc [] =
     [\<lparr>question = JStr ''Q1'', answer = JStr ''A1''\<rparr>] \<and>
   method4 faqDoc [] = [\<lparr>question = JStr ''Heading'', answer = JStr ''Paragraph''\<rparr>] \<and>
   allMethods JSON_examples faqDoc = [\<lparr>question = JStr ''Q1'', answer = JStr ''A1''\<rparr>]"
proof -
  have a: "method1 faqDoc [] @ method2 JSON_examples faqDoc [] =
     [\<lparr>question = JStr ''Q1'', answer = JStr ''A1''\<rparr>]"
    by code_simp
  have b: "method4 faqDoc [] = [\<lparr>question = JStr ''Heading'', answer = JStr ''Paragraph''\<rparr>]"
    by code_simp
  have "allMethods JSON_examples faqDoc = [\<lparr>question = JStr ''Q1'', answer = JStr ''A1''\<rparr>]"
    using faq_cascade [of JSON_examples faqDoc] a by simp
  with a b show ?thesis by blast
qed

end
